theory Spec2Isabelle
  imports Main "HOL-Library.Sublist"
begin

section \<open>The parsed document\<close>

text \<open>
  \<^verbatim>\<open>scraper_utils.py\<close> hands the rendered page to \<^verbatim>\<open>BeautifulSoup(rendered, 'html.parser')\<close>
  and works on the resulting tree only. A tree node is an element (\<open>Tag\<close>, with its
  lower-cased name and its children in document order), a text string (\<open>Text\<close>, the
  library's \<^verbatim>\<open>NavigableString\<close>), or a string object of another class (\<open>Other\<close>: a
  comment, a doctype, the content of a script or style element), which the library's
  \<^verbatim>\<open>get_text\<close> leaves out. Attributes are never read by the program and are not modelled.
  A Python string is a list of characters, a \<open>char\<close> standing for a code point below 256.
\<close>

datatype node = Tag string "node list" | Text string | Other string

text \<open>\<^verbatim>\<open>Tag.descendants\<close>: every node below the element, in document order (pre-order).\<close>

fun descendants :: "node \<Rightarrow> node list" where
  "descendants (Tag n cs) = concat (map (\<lambda>c. c # descendants c) cs)"
| "descendants (Text s) = []"
| "descendants (Other s) = []"

text \<open>
  \<^verbatim>\<open>tag.find_all(names)\<close> with the default \<^verbatim>\<open>recursive=True\<close>: the descendant elements
  whose name is one of \<open>names\<close>, in document order. \<^verbatim>\<open>tag.find(name)\<close> is the first of them,
  or \<^verbatim>\<open>None\<close>.
\<close>

fun is_named :: "string list \<Rightarrow> node \<Rightarrow> bool" where
  "is_named names (Tag n cs) = (n \<in> set names)"
| "is_named names (Text s) = False"
| "is_named names (Other s) = False"

definition find_all :: "string list \<Rightarrow> node \<Rightarrow> node list" where
  "find_all names nd = filter (is_named names) (descendants nd)"

definition find_tag :: "string \<Rightarrow> node \<Rightarrow> node option" where
  "find_tag name nd = (case find_all [name] nd of [] \<Rightarrow> None | t # ts \<Rightarrow> Some t)"

text \<open>
  \<^verbatim>\<open>str.strip()\<close> removes leading and trailing whitespace: below code point 256 these are
  the characters 9 to 13, 28 to 32, 133 and 160.
\<close>

definition isspace :: "char \<Rightarrow> bool" where
  "isspace c = ((of_char c :: nat) \<in> {9, 10, 11, 12, 13, 28, 29, 30, 31, 32, 133, 160})"

definition strip :: "string \<Rightarrow> string" where
  "strip s = rev (dropWhile isspace (rev (dropWhile isspace s)))"

text \<open>
  \<^verbatim>\<open>Tag._all_strings(strip)\<close> walks the descendants, keeps the text strings and, when
  \<open>strip\<close> is set, strips each of them and skips those that become empty.
  \<^verbatim>\<open>get_text(strip=...)\<close> joins the outcome with the empty separator.
\<close>

fun string_of :: "bool \<Rightarrow> node \<Rightarrow> string list" where
  "string_of strp (Text s) =
     (if strp then (let s' = strip s in if length s' = 0 then [] else [s']) else [s])"
| "string_of strp (Tag n cs) = []"
| "string_of strp (Other s) = []"

definition all_strings :: "bool \<Rightarrow> node \<Rightarrow> string list" where
  "all_strings strp nd = concat (map (string_of strp) (descendants nd))"

definition get_text :: "bool \<Rightarrow> node \<Rightarrow> string" where
  "get_text strp nd = concat (all_strings strp nd)"

section \<open>The data frame\<close>

text \<open>
  A \<^verbatim>\<open>pandas.DataFrame\<close> as far as the program uses it: the column labels (header names, or
  positions when no names were given), and the cells row by row, \<open>None\<close> being the null
  sentinel. \<^verbatim>\<open>df.shape\<close> is the pair of the row count and the column count.
\<close>

datatype label = Name string | Pos nat

record dataframe =
  columns :: "label list"
  cells :: "string option list list"

definition shape :: "dataframe \<Rightarrow> nat \<times> nat" where
  "shape df = (length (cells df), length (columns df))"

datatype exn = Exception string

fun str_exn :: "exn \<Rightarrow> string" where
  "str_exn (Exception msg) = msg"

text \<open>\<^verbatim>\<open>str(n)\<close> for an integer: its decimal digits, with a minus sign when negative.\<close>

fun str_nat :: "nat \<Rightarrow> string" where
  "str_nat n = (if n < 10 then [char_of (48 + n)] else str_nat (n div 10) @ [char_of (48 + n mod 10)])"

declare str_nat.simps [simp del]

definition str_int :: "int \<Rightarrow> string" where
  "str_int i = (if i < 0 then CHR ''-'' # str_nat (nat (- i)) else str_nat (nat i))"

text \<open>
  The constructor on a list of rows (pandas' \<^verbatim>\<open>to_object_array\<close>): the width is that of
  the widest row, and the cells a row does not fill stay \<open>None\<close>. An empty list gives a
  frame without rows that keeps the given columns. With column names, a width different
  from the number of names raises \<^verbatim>\<open>ValueError\<close>.
\<close>

definition width :: "'a list list \<Rightarrow> nat" where
  "width rows = fold (\<lambda>r k. if k < length r then length r else k) rows 0"

definition to_object_array :: "'a option list list \<Rightarrow> 'a option list list" where
  "to_object_array rows = map (\<lambda>r. r @ replicate (width rows - length r) None) rows"

definition DataFrame :: "string option list list \<Rightarrow> string list option \<Rightarrow> exn + dataframe" where
  "DataFrame rows cols =
     (if length rows = 0 then
        Inr \<lparr>columns = (case cols of None \<Rightarrow> [] | Some hs \<Rightarrow> map Name hs), cells = []\<rparr>
      else
        (case cols of
           None \<Rightarrow> Inr \<lparr>columns = map Pos [0..<width rows], cells = to_object_array rows\<rparr>
         | Some hs \<Rightarrow>
             if length hs \<noteq> width rows then
               Inl (Exception (str_nat (length hs) @ '' columns passed, passed data had ''
                      @ str_nat (width rows) @ '' columns''))
             else Inr \<lparr>columns = map Name hs, cells = to_object_array rows\<rparr>))"

section \<open>Table extraction\<close>

text \<open>
  The part of \<^verbatim>\<open>scrape_table_from_url\<close> after \<^verbatim>\<open>tbl = soup.find('table')\<close>. An element is
  always truthy in Python, so \<^verbatim>\<open>if thead\<close>, \<^verbatim>\<open>if first_row\<close> and \<^verbatim>\<open>find('tbody') or tbl\<close>
  test for \<^verbatim>\<open>None\<close>.
\<close>

definition extract_headers :: "node \<Rightarrow> string list" where
  "extract_headers tbl =
     (case find_tag ''thead'' tbl of
        Some thead \<Rightarrow> map (get_text True) (find_all [''th''] thead)
      | None \<Rightarrow>
          (case find_tag ''tr'' tbl of
             Some first_row \<Rightarrow> map (get_text True) (find_all [''th'', ''td''] first_row)
           | None \<Rightarrow> []))"

definition row_cells :: "node \<Rightarrow> string list" where
  "row_cells tr = map (get_text True) (find_all [''td'', ''th''] tr)"

fun rows_loop :: "node list \<Rightarrow> string list list \<Rightarrow> string list list" where
  "rows_loop [] rows = rows"
| "rows_loop (tr # trs) rows =
     (let cells = row_cells tr
      in if list_ex (\<lambda>c. c \<noteq> []) cells then rows_loop trs (rows @ [cells])
         else rows_loop trs rows)"

definition body_scope :: "node \<Rightarrow> node" where
  "body_scope tbl = (case find_tag ''tbody'' tbl of Some tbody \<Rightarrow> tbody | None \<Rightarrow> tbl)"

definition extract_rows :: "node \<Rightarrow> string list list" where
  "extract_rows tbl = rows_loop (find_all [''tr''] (body_scope tbl)) []"

definition normalize_row :: "nat \<Rightarrow> string list \<Rightarrow> string option list" where
  "normalize_row max_cols r =
     (if length r < max_cols then map Some r @ replicate (max_cols - length r) None
      else map Some (take max_cols r))"

definition table_to_frame :: "node \<Rightarrow> exn + dataframe" where
  "table_to_frame tbl =
     (let headers = extract_headers tbl; rows = extract_rows tbl
      in if headers \<noteq> [] then
           DataFrame (map (normalize_row (length headers)) rows) (Some headers)
         else DataFrame (map (map Some) rows) None)"

section \<open>The browser session\<close>

text \<open>
  The helium calls the program makes, as operations on the state \<open>'w\<close> of the world
  outside the program (the browser process, the page, the clock). Each either returns or
  raises; \<open>exn\<close> stands for an exception derived from \<^verbatim>\<open>Exception\<close>, carrying its
  \<^verbatim>\<open>str(e)\<close>. Asynchronous interrupts are outside the model.
  \<^item> \<open>kill_browser\<close>: \<^verbatim>\<open>kill_browser()\<close>;
  \<^item> \<open>start_chrome\<close>: \<^verbatim>\<open>start_chrome(url, headless=headless, options=chrome_options)\<close>,
    the options given as the list of their arguments;
  \<^item> \<open>wait_until\<close>: \<^verbatim>\<open>wait_until(lambda: len(get_driver().find_elements('tag name',
    'table')) > 0, timeout_secs=timeout_secs)\<close>, which raises when the condition has not
    become true in time;
  \<^item> \<open>page_source\<close>: \<^verbatim>\<open>get_driver().page_source\<close>;
  \<^item> \<open>html_parser\<close>: \<^verbatim>\<open>BeautifulSoup(rendered, 'html.parser')\<close>, whose result is the
    document root, an element named \<^verbatim>\<open>[document]\<close>.
\<close>

record 'w helium =
  kill_browser :: "'w \<Rightarrow> (exn + unit) \<times> 'w"
  start_chrome :: "string \<Rightarrow> bool \<Rightarrow> string list \<Rightarrow> 'w \<Rightarrow> (exn + unit) \<times> 'w"
  wait_until :: "int \<Rightarrow> 'w \<Rightarrow> (exn + unit) \<times> 'w"
  page_source :: "'w \<Rightarrow> (exn + string) \<times> 'w"
  html_parser :: "string \<Rightarrow> node"

definition default_options :: "string list" where
  "default_options = [''--no-sandbox'', ''--disable-dev-shm-usage'', ''--disable-gpu'']"

text \<open>\<^verbatim>\<open>pd.DataFrame()\<close>.\<close>

definition empty_frame :: dataframe where
  "empty_frame = \<lparr>columns = [], cells = []\<rparr>"

definition str_shape :: "nat \<times> nat \<Rightarrow> string" where
  "str_shape sh = ''('' @ str_nat (fst sh) @ '', '' @ str_nat (snd sh) @ '')''"

definition no_table_message :: string where
  "no_table_message =
     ''No <table> found in page source. The table may be rendered differently or inside an iframe.''"

text \<open>
  A call returns the frame or the exception that leaves the function, the lines printed,
  and the state of the world afterwards.
\<close>

definition scrape_table_from_url ::
  "'w helium \<Rightarrow> string \<Rightarrow> bool \<Rightarrow> int \<Rightarrow> string list option \<Rightarrow> 'w
     \<Rightarrow> (exn + dataframe) \<times> string list \<times> 'w" where
  "scrape_table_from_url H url headless timeout_secs chrome_options w0 =
     (let opts = (case chrome_options of None \<Rightarrow> default_options | Some os \<Rightarrow> os);
          w1 = (case kill_browser H w0 of (Inl e, w) \<Rightarrow> w | (Inr u, w) \<Rightarrow> w)
      in case start_chrome H url headless opts w1 of
           (Inl e, w2) \<Rightarrow> (Inl e, [], w2)
         | (Inr u, w2) \<Rightarrow>
             (case wait_until H timeout_secs w2 of
                (Inl e, w3) \<Rightarrow>
                  (Inr empty_frame,
                   [''Table not found within '' @ str_int timeout_secs @ '' seconds: '' @ str_exn e],
                   w3)
              | (Inr u, w3) \<Rightarrow>
                  (case page_source H w3 of
                     (Inl e, w4) \<Rightarrow> (Inl e, [], w4)
                   | (Inr rendered, w4) \<Rightarrow>
                       (case find_tag ''table'' (html_parser H rendered) of
                          None \<Rightarrow> (Inr empty_frame, [no_table_message], w4)
                        | Some tbl \<Rightarrow>
                            (case table_to_frame tbl of
                               Inl e \<Rightarrow> (Inl e, [], w4)
                             | Inr df \<Rightarrow>
                                 (Inr df,
                                  [''Extracted DataFrame shape: '' @ str_shape (shape df)],
                                  w4))))))"

definition close_browser :: "'w helium \<Rightarrow> 'w \<Rightarrow> (exn + unit) \<times> string list \<times> 'w" where
  "close_browser H w =
     (case kill_browser H w of
        (Inr u, w') \<Rightarrow> (Inr (), [''Browser closed successfully.''], w')
      | (Inl e, w') \<Rightarrow>
          (Inr (), [''kill_browser() failed or browser already closed: '' @ str_exn e], w'))"

section \<open>Reference notions\<close>

text \<open>
  Being below an element at any depth, defined without reference to the traversal.
\<close>

inductive below :: "node \<Rightarrow> node \<Rightarrow> bool" where
  child: "c \<in> set cs \<Longrightarrow> below c (Tag n cs)"
| deeper: "c \<in> set cs \<Longrightarrow> below d c \<Longrightarrow> below d (Tag n cs)"

code_pred below .

text \<open>
  The specification's wording of the body rows, "if a tbody exists, iterate its direct tr
  children": the children of an element that carry one of the names.
\<close>

fun children :: "node \<Rightarrow> node list" where
  "children (Tag n cs) = cs"
| "children (Text s) = []"
| "children (Other s) = []"

definition spec_direct_children :: "string list \<Rightarrow> node \<Rightarrow> node list" where
  "spec_direct_children names nd = filter (is_named names) (children nd)"

definition spec_extract_rows :: "node \<Rightarrow> string list list" where
  "spec_extract_rows tbl =
     (case find_tag ''tbody'' tbl of
        Some tbody \<Rightarrow> rows_loop (spec_direct_children [''tr''] tbody) []
      | None \<Rightarrow> rows_loop (find_all [''tr''] tbl) [])"


text \<open>
  The specification's wording of the empty-row invariant, "no returned row has all-empty
  cells after whitespace stripping": a row is blank when each of its cells is the empty
  string.
\<close>

definition blank_row :: "string option list \<Rightarrow> bool" where
  "blank_row r = list_all (\<lambda>c. c = Some []) r"

section \<open>Sample pages\<close>

text \<open>A header section and two body rows (scenario S1).\<close>

definition s1_table :: node where
  "s1_table = Tag ''table''
     [Tag ''thead'' [Tag ''tr'' [Tag ''th'' [Text ''A''], Tag ''th'' [Text ''B'']]],
      Tag ''tbody''
        [Tag ''tr'' [Tag ''td'' [Text ''1''], Tag ''td'' [Text ''2'']],
         Tag ''tr'' [Tag ''td'' [Text ''3''], Tag ''td'' [Text ''4'']]]]"

text \<open>No header section; the first row carries the names (scenario S2).\<close>

definition s2_table :: node where
  "s2_table = Tag ''table''
     [Tag ''tr'' [Tag ''th'' [Text ''X''], Tag ''th'' [Text ''Y'']],
      Tag ''tr'' [Tag ''td'' [Text ''a''], Tag ''td'' [Text ''b'']]]"

text \<open>Three header cells, a row of two cells and a row of four (scenario S3).\<close>

definition s3_table :: node where
  "s3_table = Tag ''table''
     [Tag ''thead''
        [Tag ''tr'' [Tag ''th'' [Text ''A''], Tag ''th'' [Text ''B''], Tag ''th'' [Text ''C'']]],
      Tag ''tbody''
        [Tag ''tr'' [Tag ''td'' [Text ''1''], Tag ''td'' [Text ''2'']],
         Tag ''tr'' [Tag ''td'' [Text ''3''], Tag ''td'' [Text ''4''], Tag ''td'' [Text ''5''],
                     Tag ''td'' [Text ''6'']]]]"

text \<open>A body row whose cells are empty or blank, followed by a filled one (scenario S4).\<close>

definition s4_blank_row :: node where
  "s4_blank_row = Tag ''tr'' [Tag ''td'' [Text []], Tag ''td'' [Text ''  ''], Tag ''td'' [Text []]]"

definition s4_table :: node where
  "s4_table = Tag ''table''
     [Tag ''thead''
        [Tag ''tr'' [Tag ''th'' [Text ''A''], Tag ''th'' [Text ''B''], Tag ''th'' [Text ''C'']]],
      Tag ''tbody''
        [s4_blank_row,
         Tag ''tr'' [Tag ''td'' [Text ''p''], Tag ''td'' [Text ''q''], Tag ''td'' [Text ''r'']]]]"

text \<open>An empty header section, so no header names, above rows of one and two cells.\<close>

definition ragged_table :: node where
  "ragged_table = Tag ''table''
     [Tag ''thead'' [],
      Tag ''tr'' [Tag ''td'' [Text ''a'']],
      Tag ''tr'' [Tag ''td'' [Text ''b''], Tag ''td'' [Text ''c'']]]"

text \<open>One header name; the only body row has a blank first cell and a filled second one.\<close>

definition overlong_table :: node where
  "overlong_table = Tag ''table''
     [Tag ''thead'' [Tag ''tr'' [Tag ''th'' [Text ''A'']]],
      Tag ''tbody'' [Tag ''tr'' [Tag ''td'' [Text '' ''], Tag ''td'' [Text ''x'']]]]"

text \<open>A body row with a cell that holds an inner table.\<close>

definition inner_table :: node where
  "inner_table = Tag ''table'' [Tag ''tr'' [Tag ''td'' [Text ''b'']]]"

definition nested_tbody :: node where
  "nested_tbody = Tag ''tbody'' [Tag ''tr'' [Tag ''td'' [Text ''a'', inner_table]]]"

definition nested_table :: node where
  "nested_table = Tag ''table'' [nested_tbody]"



text \<open>No header section, and a first row whose only cell is blank.\<close>

definition blank_first_table :: node where
  "blank_first_table = Tag ''table''
     [Tag ''tr'' [Tag ''td'' [Text '' '']],
      Tag ''tr'' [Tag ''td'' [Text ''a'']]]"

text \<open>Header names, and a body whose only row is blank.\<close>

definition headers_only_table :: node where
  "headers_only_table = Tag ''table''
     [Tag ''thead'' [Tag ''tr'' [Tag ''th'' [Text ''A''], Tag ''th'' [Text ''B'']]],
      Tag ''tbody'' [Tag ''tr'' [Tag ''td'' [Text '' ''], Tag ''td'' []]]]"

text \<open>
  A stand-in for the browser that serves one fixed document. The state of the world is
  whether a session is live: \<open>kill_browser\<close> raises when none is, as helium does, and
  \<open>wait_until\<close> raises when the document has no table.
\<close>

definition stub_browser :: "node \<Rightarrow> bool helium" where
  "stub_browser doc =
     \<lparr>kill_browser = (\<lambda>live. if live then (Inr (), False)
                              else (Inl (Exception ''This operation requires a browser window.''), False)),
      start_chrome = (\<lambda>url headless opts live. (Inr (), True)),
      wait_until = (\<lambda>timeout_secs live.
                      if find_all [''table''] doc = [] then (Inl (Exception ''Message: ''), live)
                      else (Inr (), live)),
      page_source = (\<lambda>live. (Inr ''<html></html>'', live)),
      html_parser = (\<lambda>rendered. doc)\<rparr>"

definition document :: "node list \<Rightarrow> node" where
  "document nodes = Tag ''[document]'' nodes"

section \<open>Properties of the extraction\<close>

subsection \<open>The row loop and the frame constructor\<close>

lemma rows_loop_filter:
  "rows_loop trs acc = acc @ filter (list_ex (\<lambda>c. c \<noteq> [])) (map row_cells trs)"
  by (induction trs arbitrary: acc) (simp_all add: Let_def)

lemma extract_rows_filter:
  "extract_rows tbl =
     filter (list_ex (\<lambda>c. c \<noteq> [])) (map row_cells (find_all [''tr''] (body_scope tbl)))"
  by (simp add: extract_rows_def rows_loop_filter)

lemma fold_width_mono: "k \<le> fold (\<lambda>r k. if k < length r then length r else k) rows k"
proof (induction rows arbitrary: k)
  case Nil
  show ?case by simp
next
  case (Cons r rows)
  have "k \<le> (if k < length r then length r else k)" by simp
  also have "\<dots> \<le> fold (\<lambda>r k. if k < length r then length r else k) rows (if k < length r then length r else k)"
    by (rule Cons.IH)
  finally show ?case by simp
qed

lemma fold_width_ge:
  "r \<in> set rows \<Longrightarrow> length r \<le> fold (\<lambda>r k. if k < length r then length r else k) rows k"
proof (induction rows arbitrary: k)
  case Nil
  then show ?case by simp
next
  case (Cons a rows)
  show ?case
  proof (cases "r = a")
    case True
    have "length a \<le> (if k < length a then length a else k)" by simp
    also have "\<dots> \<le> fold (\<lambda>r k. if k < length r then length r else k) rows
                       (if k < length a then length a else k)"
      by (rule fold_width_mono)
    finally show ?thesis using True by simp
  next
    case False
    with Cons.prems have "r \<in> set rows" by simp
    then show ?thesis by (simp add: Cons.IH)
  qed
qed

lemma fold_width_attained:
  "fold (\<lambda>r k. if k < length r then length r else k) rows k = k
   \<or> fold (\<lambda>r k. if k < length r then length r else k) rows k \<in> length ` set rows"
proof (induction rows arbitrary: k)
  case Nil
  show ?case by simp
next
  case (Cons a rows)
  from Cons.IH [of "if k < length a then length a else k"] show ?case
    by (auto split: if_splits)
qed

lemma width_ge: "r \<in> set rows \<Longrightarrow> length r \<le> width rows"
  unfolding width_def by (rule fold_width_ge)

lemma width_attained:
  assumes "rows \<noteq> []"
  shows "width rows \<in> length ` set rows"
proof (cases "width rows = 0")
  case True
  from assms obtain r where r: "r \<in> set rows" by (cases rows) auto
  with True width_ge [OF r] have "length r = width rows" by simp
  with r show ?thesis by (metis imageI)
next
  case False
  with fold_width_attained [of rows 0] show ?thesis by (simp add: width_def)
qed

lemma width_Max: "rows \<noteq> [] \<Longrightarrow> width rows = Max (length ` set rows)"
  by (rule sym, rule Max_eqI) (auto simp: width_attained dest: width_ge)

lemma width_Nil: "width [] = 0"
  by (simp add: width_def)

lemma width_const:
  assumes "rows \<noteq> []" and "\<forall>r\<in>set rows. length r = k"
  shows "width rows = k"
proof -
  from assms have "length ` set rows = {k}" by (cases rows) auto
  with assms(1) show ?thesis by (simp add: width_Max)
qed

lemma to_object_array_length:
  "r \<in> set (to_object_array rows) \<Longrightarrow> length r = width rows"
  by (auto simp: to_object_array_def dest: width_ge)

lemma to_object_array_rect:
  assumes "\<forall>r\<in>set rows. length r = width rows"
  shows "to_object_array rows = rows"
  using assms by (simp add: to_object_array_def map_idI)

lemma length_normalize_row: "length (normalize_row k r) = k"
  by (simp add: normalize_row_def)

lemma width_normalized:
  "rows \<noteq> [] \<Longrightarrow> width (map (normalize_row k) rows) = k"
  by (rule width_const) (simp_all add: length_normalize_row)

lemma table_to_frame_headers:
  assumes "extract_headers tbl \<noteq> []"
  shows "table_to_frame tbl =
           Inr \<lparr>columns = map Name (extract_headers tbl),
                cells = map (normalize_row (length (extract_headers tbl))) (extract_rows tbl)\<rparr>"
proof (cases "extract_rows tbl = []")
  case True
  with assms show ?thesis by (simp add: table_to_frame_def DataFrame_def Let_def)
next
  case False
  let ?C = "length (extract_headers tbl)"
  let ?N = "map (normalize_row ?C) (extract_rows tbl)"
  from False have w: "width ?N = ?C" by (rule width_normalized)
  have "\<forall>r\<in>set ?N. length r = width ?N" by (simp add: w length_normalize_row)
  then have "to_object_array ?N = ?N" by (rule to_object_array_rect)
  with assms False w show ?thesis by (simp add: table_to_frame_def DataFrame_def Let_def)
qed

lemma table_to_frame_headerless:
  assumes "extract_headers tbl = []"
  shows "table_to_frame tbl =
           Inr \<lparr>columns = map Pos [0..<width (extract_rows tbl)],
                cells = map (\<lambda>r. map Some r @ replicate (width (extract_rows tbl) - length r) None)
                          (extract_rows tbl)\<rparr>"
proof -
  have "fold (\<lambda>r k. if k < length r then length r else k) (map (map Some) rows) k
          = fold (\<lambda>r k. if k < length r then length r else k) rows k"
    for rows :: "string list list" and k
    by (induction rows arbitrary: k) simp_all
  then have w: "width (map (map Some) rows) = width rows" for rows :: "string list list"
    by (simp add: width_def)
  show ?thesis
  proof (cases "extract_rows tbl = []")
    case True
    with assms show ?thesis by (simp add: table_to_frame_def DataFrame_def width_Nil Let_def)
  next
    case False
    with assms show ?thesis
      by (simp add: table_to_frame_def DataFrame_def w to_object_array_def comp_def Let_def)
  qed
qed


subsection \<open>Stripping\<close>

lemma dropWhile_rev_dropWhile_Nil:
  "dropWhile P (rev (dropWhile P s)) = [] \<longleftrightarrow> dropWhile P s = []"
proof
  assume a: "dropWhile P (rev (dropWhile P s)) = []"
  show "dropWhile P s = []"
  proof (rule ccontr)
    assume n: "dropWhile P s \<noteq> []"
    then have "\<not> P (hd (dropWhile P s))" by (rule hd_dropWhile)
    moreover from n have "hd (dropWhile P s) \<in> set (rev (dropWhile P s))" by simp
    moreover from a have "\<forall>x\<in>set (rev (dropWhile P s)). P x"
      by (simp only: dropWhile_eq_Nil_conv)
    ultimately show False by blast
  qed
next
  assume "dropWhile P s = []"
  then show "dropWhile P (rev (dropWhile P s)) = []"
    by (simp only: rev.simps dropWhile.simps)
qed

lemma strip_Nil_iff: "strip s = [] \<longleftrightarrow> (\<forall>c\<in>set s. isspace c)"
proof -
  have "strip s = [] \<longleftrightarrow> dropWhile isspace (rev (dropWhile isspace s)) = []"
    by (simp add: strip_def del: dropWhile_eq_Nil_conv)
  also have "\<dots> \<longleftrightarrow> dropWhile isspace s = []"
    by (rule dropWhile_rev_dropWhile_Nil)
  also have "\<dots> \<longleftrightarrow> (\<forall>c\<in>set s. isspace c)"
    by (rule dropWhile_eq_Nil_conv)
  finally show ?thesis .
qed



subsection \<open>Text of a node\<close>

lemma string_of_strip:
  "string_of True d = filter (\<lambda>s. s \<noteq> []) (map strip (string_of False d))"
  by (cases d) (simp_all add: Let_def)

lemma all_strings_strip:
  "all_strings True nd = filter (\<lambda>s. s \<noteq> []) (map strip (all_strings False nd))"
proof -
  have "string_of True = (\<lambda>d. filter (\<lambda>s. s \<noteq> []) (map strip (string_of False d)))"
    by (rule ext) (rule string_of_strip)
  then show ?thesis
    by (simp add: all_strings_def map_concat filter_concat comp_def)
qed

lemma concat_filter_nonempty: "concat (filter (\<lambda>s. s \<noteq> []) xs) = concat xs"
  by (induction xs) simp_all

lemma get_text_strip_each:
  "get_text True nd = concat (map strip (all_strings False nd))"
  by (simp add: get_text_def all_strings_strip concat_filter_nonempty)

lemma get_text_Nil_iff:
  "get_text True nd = [] \<longleftrightarrow> (\<forall>s\<in>set (all_strings False nd). \<forall>c\<in>set s. isspace c)"
  by (simp add: get_text_strip_each strip_Nil_iff)



subsection \<open>Descendants\<close>

lemma below_descendants: "below d nd \<Longrightarrow> d \<in> set (descendants nd)"
  by (induction rule: below.induct) auto

lemma descendants_below: "d \<in> set (descendants nd) \<Longrightarrow> below d nd"
proof (induction nd arbitrary: d)
  case (Tag n cs)
  then obtain c where c: "c \<in> set cs" and d: "d = c \<or> d \<in> set (descendants c)" by auto
  from d show ?case
  proof
    assume "d = c"
    with c show ?thesis by (simp add: below.child)
  next
    assume "d \<in> set (descendants c)"
    with Tag.IH c have "below d c" by blast
    with c show ?thesis by (rule below.deeper)
  qed
qed simp_all

lemma set_descendants: "set (descendants nd) = {d. below d nd}"
  by (auto intro: below_descendants descendants_below)

lemma set_find_all: "set (find_all names nd) = {d. below d nd \<and> is_named names d}"
  by (auto simp: find_all_def set_descendants)

section \<open>The scenarios and invariants of the specification\<close>

subsection \<open>Reaching the table\<close>

lemma swallow_kill:
  "(case p of (Inl e, w) \<Rightarrow> w | (Inr u, w) \<Rightarrow> w) = snd p"
  by (cases p) (simp split: sum.split)

lemma scrape_table_found:
  assumes "start_chrome H url headless
             (case chrome_options of None \<Rightarrow> default_options | Some os \<Rightarrow> os)
             (snd (kill_browser H w0)) = (Inr (), w2)"
    and "wait_until H timeout_secs w2 = (Inr (), w3)"
    and "page_source H w3 = (Inr rendered, w4)"
    and "find_tag ''table'' (html_parser H rendered) = Some tbl"
    and "table_to_frame tbl = Inr df"
  shows "scrape_table_from_url H url headless timeout_secs chrome_options w0 =
           (Inr df, [''Extracted DataFrame shape: '' @ str_shape (shape df)], w4)"
  using assms by (simp add: scrape_table_from_url_def swallow_kill split_def)

lemma s1_frame:
  "table_to_frame s1_table =
     Inr \<lparr>columns = [Name ''A'', Name ''B''],
          cells = [[Some ''1'', Some ''2''], [Some ''3'', Some ''4'']]\<rparr>"
  by code_simp

text \<open>
  Claim C1. When the browser starts, a table appears in time, and the first table of the
  parsed page is the one of scenario S1 (a header row A, B and the body rows 1, 2 and
  3, 4), \<open>scrape_table_from_url\<close> returns a frame with the columns A and B, the rows
  [1, 2] and [3, 4], and the shape (2, 2).
\<close>

theorem scrape_thead_table:
  assumes "start_chrome H url headless
             (case chrome_options of None \<Rightarrow> default_options | Some os \<Rightarrow> os)
             (snd (kill_browser H w0)) = (Inr (), w2)"
    and "wait_until H timeout_secs w2 = (Inr (), w3)"
    and "page_source H w3 = (Inr rendered, w4)"
    and "find_tag ''table'' (html_parser H rendered) = Some s1_table"
  shows "\<exists>df out. scrape_table_from_url H url headless timeout_secs chrome_options w0 = (Inr df, out, w4)
           \<and> columns df = [Name ''A'', Name ''B'']
           \<and> cells df = [[Some ''1'', Some ''2''], [Some ''3'', Some ''4'']]
           \<and> shape df = (2, 2)"
  using scrape_table_found [OF assms s1_frame] by (simp add: shape_def)

theorem scrape_thead_table_witness:
  "\<exists>df out. scrape_table_from_url (stub_browser (document [s1_table])) ''http://localhost/'' True 30 None False
              = (Inr df, out, True)
           \<and> columns df = [Name ''A'', Name ''B'']
           \<and> cells df = [[Some ''1'', Some ''2''], [Some ''3'', Some ''4'']]
           \<and> shape df = (2, 2)"
proof -
  let ?H = "stub_browser (document [s1_table])"
  have launch: "start_chrome ?H ''http://localhost/'' True
                  (case None of None \<Rightarrow> default_options | Some os \<Rightarrow> os)
                  (snd (kill_browser ?H False)) = (Inr (), True)"
    by (simp add: stub_browser_def)
  have wait: "wait_until ?H 30 True = (Inr (), True)"
    by (simp add: stub_browser_def document_def s1_table_def find_all_def)
  have page: "page_source ?H True = (Inr ''<html></html>'', True)"
    by (simp add: stub_browser_def)
  have tbl: "find_tag ''table'' (html_parser ?H ''<html></html>'') = Some s1_table"
    by (simp add: stub_browser_def document_def s1_table_def find_tag_def find_all_def)
  from scrape_thead_table [OF launch wait page tbl] show ?thesis .
qed

subsection \<open>Timeout and teardown\<close>

text \<open>
  Claim C7. When the browser has started and the wait for a table raises (no table
  appeared within \<open>timeout_secs\<close>), \<open>scrape_table_from_url\<close> raises nothing: it
  returns the empty frame, of shape (0, 0), and prints one line, which contains the
  decimal form of \<open>timeout_secs\<close>.
\<close>

theorem scrape_wait_timeout:
  assumes "start_chrome H url headless
             (case chrome_options of None \<Rightarrow> default_options | Some os \<Rightarrow> os)
             (snd (kill_browser H w0)) = (Inr (), w2)"
    and "wait_until H timeout_secs w2 = (Inl e, w3)"
  shows "scrape_table_from_url H url headless timeout_secs chrome_options w0 =
           (Inr empty_frame,
            [''Table not found within '' @ str_int timeout_secs @ '' seconds: '' @ str_exn e],
            w3)
         \<and> shape empty_frame = (0, 0)
         \<and> sublist (str_int timeout_secs)
              (''Table not found within '' @ str_int timeout_secs @ '' seconds: '' @ str_exn e)"
proof -
  have "scrape_table_from_url H url headless timeout_secs chrome_options w0 =
           (Inr empty_frame,
            [''Table not found within '' @ str_int timeout_secs @ '' seconds: '' @ str_exn e],
            w3)"
    using assms by (simp add: scrape_table_from_url_def swallow_kill split_def)
  moreover have "shape empty_frame = (0, 0)"
    by (simp add: shape_def empty_frame_def)
  moreover have "sublist (str_int timeout_secs)
              (''Table not found within '' @ str_int timeout_secs @ '' seconds: '' @ str_exn e)"
    by (rule sublist_appendI)
  ultimately show ?thesis by simp
qed

theorem scrape_wait_timeout_witness:
  "scrape_table_from_url (stub_browser (document [Tag ''p'' [Text ''loading'']]))
       ''http://localhost/'' True 30 None False =
     (Inr empty_frame, [''Table not found within 30 seconds: Message: ''], True)
   \<and> shape empty_frame = (0, 0)"
proof -
  let ?H = "stub_browser (document [Tag ''p'' [Text ''loading'']])"
  have launch: "start_chrome ?H ''http://localhost/'' True
                  (case None of None \<Rightarrow> default_options | Some os \<Rightarrow> os)
                  (snd (kill_browser ?H False)) = (Inr (), True)"
    by (simp add: stub_browser_def)
  have wait: "wait_until ?H 30 True = (Inl (Exception ''Message: ''), True)"
    by (simp add: stub_browser_def document_def find_all_def)
  have thirty: "str_int 30 = ''30''"
    by code_simp
  from scrape_wait_timeout [OF launch wait] show ?thesis
    by (simp add: thirty)
qed

text \<open>
  Claim C8. \<open>close_browser\<close> returns normally whatever \<open>kill_browser\<close> does, also
  when called again in the state the first call left; a failure of \<open>kill_browser\<close>
  shows only as a printed line. The teardown at the start of \<open>scrape_table_from_url\<close>
  is swallowed as well: the call behaves as if that teardown had returned normally, so
  the launch is reached either way.
\<close>

theorem close_browser_never_raises:
  "fst (close_browser H w) = Inr ()
   \<and> fst (close_browser H (snd (snd (close_browser H w)))) = Inr ()
   \<and> snd (snd (close_browser H w)) = snd (kill_browser H w)
   \<and> (\<forall>e w'. kill_browser H w = (Inl e, w') \<longrightarrow>
        close_browser H w =
          (Inr (), [''kill_browser() failed or browser already closed: '' @ str_exn e], w'))
   \<and> (\<forall>w'. kill_browser H w = (Inr (), w') \<longrightarrow>
        close_browser H w = (Inr (), [''Browser closed successfully.''], w'))
   \<and> scrape_table_from_url H url headless timeout_secs chrome_options w =
       scrape_table_from_url (H\<lparr>kill_browser := \<lambda>s. (Inr (), snd (kill_browser H s))\<rparr>)
         url headless timeout_secs chrome_options w"
proof -
  have never: "fst (close_browser H s) = Inr ()" for s
    by (simp add: close_browser_def split: prod.split sum.split)
  have state: "snd (snd (close_browser H w)) = snd (kill_browser H w)"
    by (simp add: close_browser_def split: prod.split sum.split)
  have failed: "\<forall>e w'. kill_browser H w = (Inl e, w') \<longrightarrow>
        close_browser H w =
          (Inr (), [''kill_browser() failed or browser already closed: '' @ str_exn e], w')"
    by (simp add: close_browser_def)
  have closed: "\<forall>w'. kill_browser H w = (Inr (), w') \<longrightarrow>
        close_browser H w = (Inr (), [''Browser closed successfully.''], w')"
    by (simp add: close_browser_def)
  have launch: "scrape_table_from_url H url headless timeout_secs chrome_options w =
       scrape_table_from_url (H\<lparr>kill_browser := \<lambda>s. (Inr (), snd (kill_browser H s))\<rparr>)
         url headless timeout_secs chrome_options w"
    by (simp add: scrape_table_from_url_def swallow_kill split_def
          cong: prod.case_cong sum.case_cong option.case_cong)
  from never [of w] never [of "snd (snd (close_browser H w))"] state failed closed launch
  show ?thesis by blast
qed

theorem close_browser_never_raises_witness:
  "close_browser (stub_browser (document [])) True = (Inr (), [''Browser closed successfully.''], False)
   \<and> close_browser (stub_browser (document [])) False =
       (Inr (), [''kill_browser() failed or browser already closed: This operation requires a browser window.''], False)
   \<and> fst (close_browser (stub_browser (document []))
            (snd (snd (close_browser (stub_browser (document [])) True)))) = Inr ()"
proof -
  let ?H = "stub_browser (document [])"
  have live: "kill_browser ?H True = (Inr (), False)"
    by (simp add: stub_browser_def)
  have dead: "kill_browser ?H False =
                (Inl (Exception ''This operation requires a browser window.''), False)"
    by (simp add: stub_browser_def)
  from close_browser_never_raises [of ?H True] live
  have first: "close_browser ?H True = (Inr (), [''Browser closed successfully.''], False)"
    and second: "fst (close_browser ?H (snd (snd (close_browser ?H True)))) = Inr ()"
    by blast+
  from close_browser_never_raises [of ?H False] dead
  have "close_browser ?H False =
          (Inr (), [''kill_browser() failed or browser already closed: '' @
                    str_exn (Exception ''This operation requires a browser window.'')], False)"
    by blast
  with first second show ?thesis by simp
qed

subsection \<open>Shape of the frame\<close>

text \<open>
  Claim C2. The frame built from a table is rectangular: every row has as many cells as
  there are columns. Without header names the number of columns is the width of the widest
  extracted row (none when no row was extracted), and each row is its extracted cells
  followed by null cells up to that width.
\<close>

theorem frame_rectangular:
  "\<exists>df. table_to_frame tbl = Inr df
     \<and> (\<forall>r\<in>set (cells df). length r = length (columns df))
     \<and> (extract_headers tbl = [] \<longrightarrow>
          length (columns df) =
            (if extract_rows tbl = [] then 0 else Max (length ` set (extract_rows tbl)))
          \<and> cells df =
              map (\<lambda>r. map Some r @ replicate (length (columns df) - length r) None)
                (extract_rows tbl))"
proof (cases "extract_headers tbl = []")
  case True
  let ?w = "width (extract_rows tbl)"
  let ?df = "\<lparr>columns = map Pos [0..<?w],
              cells = map (\<lambda>r. map Some r @ replicate (?w - length r) None) (extract_rows tbl)\<rparr>"
  from True have frame: "table_to_frame tbl = Inr ?df"
    by (rule table_to_frame_headerless)
  have rect: "\<forall>r\<in>set (cells ?df). length r = length (columns ?df)"
    by (auto dest: width_ge)
  have wide: "length (columns ?df) =
            (if extract_rows tbl = [] then 0 else Max (length ` set (extract_rows tbl)))"
    by (simp add: width_Nil width_Max)
  have padded: "cells ?df =
      map (\<lambda>r. map Some r @ replicate (length (columns ?df) - length r) None) (extract_rows tbl)"
    by simp
  from frame rect wide padded show ?thesis by blast
next
  case False
  let ?df = "\<lparr>columns = map Name (extract_headers tbl),
              cells = map (normalize_row (length (extract_headers tbl))) (extract_rows tbl)\<rparr>"
  from False have frame: "table_to_frame tbl = Inr ?df"
    by (rule table_to_frame_headers)
  have rect: "\<forall>r\<in>set (cells ?df). length r = length (columns ?df)"
    by (auto simp: length_normalize_row)
  from frame rect False show ?thesis by blast
qed

lemma ragged_headers: "extract_headers ragged_table = []"
  by code_simp

lemma ragged_rows: "extract_rows ragged_table = [[''a''], [''b'', ''c'']]"
  by code_simp

theorem frame_rectangular_witness:
  "extract_headers ragged_table = []
   \<and> (\<exists>df. table_to_frame ragged_table = Inr df
        \<and> length (columns df) = 2
        \<and> cells df = [[Some ''a'', None], [Some ''b'', Some ''c'']]
        \<and> (\<forall>r\<in>set (cells df). length r = 2))"
proof -
  from frame_rectangular [of ragged_table] obtain df where
    frame: "table_to_frame ragged_table = Inr df"
    and rect: "\<forall>r\<in>set (cells df). length r = length (columns df)"
    and none: "extract_headers ragged_table = [] \<longrightarrow>
          length (columns df) =
            (if extract_rows ragged_table = [] then 0
             else Max (length ` set (extract_rows ragged_table)))
          \<and> cells df =
              map (\<lambda>r. map Some r @ replicate (length (columns df) - length r) None)
                (extract_rows ragged_table)"
    by blast
  from none have cols: "length (columns df) = 2"
    by (simp add: ragged_headers ragged_rows)
  with none have "cells df = [[Some ''a'', None], [Some ''b'', Some ''c'']]"
    by (simp add: ragged_headers ragged_rows)
  with frame rect cols ragged_headers show ?thesis by auto
qed

text \<open>
  Claim C3. With a non-empty header list of length C, the frame carries the header names
  as columns and one row per extracted row, in order, each of exactly C cells: a shorter
  row is followed by null cells up to C, a longer one is cut to its first C cells.
  Scenario S3 is the witness.
\<close>

theorem rows_fit_headers:
  assumes "extract_headers tbl \<noteq> []"
  shows "\<exists>df. table_to_frame tbl = Inr df
     \<and> columns df = map Name (extract_headers tbl)
     \<and> shape df = (length (extract_rows tbl), length (extract_headers tbl))
     \<and> (\<forall>i<length (extract_rows tbl).
          length (cells df ! i) = length (extract_headers tbl)
          \<and> (length (extract_rows tbl ! i) < length (extract_headers tbl) \<longrightarrow>
               cells df ! i = map Some (extract_rows tbl ! i)
                  @ replicate (length (extract_headers tbl) - length (extract_rows tbl ! i)) None)
          \<and> (length (extract_headers tbl) \<le> length (extract_rows tbl ! i) \<longrightarrow>
               cells df ! i = map Some (take (length (extract_headers tbl)) (extract_rows tbl ! i))))"
proof -
  let ?C = "length (extract_headers tbl)"
  let ?df = "\<lparr>columns = map Name (extract_headers tbl),
              cells = map (normalize_row ?C) (extract_rows tbl)\<rparr>"
  from assms have frame: "table_to_frame tbl = Inr ?df"
    by (rule table_to_frame_headers)
  have sh: "shape ?df = (length (extract_rows tbl), ?C)"
    by (simp add: shape_def)
  have fit: "\<forall>i<length (extract_rows tbl).
          length (cells ?df ! i) = ?C
          \<and> (length (extract_rows tbl ! i) < ?C \<longrightarrow>
               cells ?df ! i = map Some (extract_rows tbl ! i)
                  @ replicate (?C - length (extract_rows tbl ! i)) None)
          \<and> (?C \<le> length (extract_rows tbl ! i) \<longrightarrow>
               cells ?df ! i = map Some (take ?C (extract_rows tbl ! i)))"
    by (simp add: normalize_row_def)
  have "columns ?df = map Name (extract_headers tbl)" by simp
  with frame sh fit show ?thesis by blast
qed

lemma s3_headers: "extract_headers s3_table = [''A'', ''B'', ''C'']"
  by code_simp

lemma s3_rows: "extract_rows s3_table = [[''1'', ''2''], [''3'', ''4'', ''5'', ''6'']]"
  by code_simp

theorem rows_fit_headers_witness:
  "extract_headers s3_table = [''A'', ''B'', ''C'']
   \<and> extract_rows s3_table = [[''1'', ''2''], [''3'', ''4'', ''5'', ''6'']]
   \<and> (\<exists>df. table_to_frame s3_table = Inr df
        \<and> cells df ! 0 = [Some ''1'', Some ''2'', None]
        \<and> cells df ! 1 = [Some ''3'', Some ''4'', Some ''5'']
        \<and> shape df = (2, 3))"
proof -
  have "extract_headers s3_table \<noteq> []" by (simp add: s3_headers)
  from rows_fit_headers [OF this] obtain df where
    frame: "table_to_frame s3_table = Inr df"
    and sh: "shape df = (length (extract_rows s3_table), length (extract_headers s3_table))"
    and fit: "\<forall>i<length (extract_rows s3_table).
          length (cells df ! i) = length (extract_headers s3_table)
          \<and> (length (extract_rows s3_table ! i) < length (extract_headers s3_table) \<longrightarrow>
               cells df ! i = map Some (extract_rows s3_table ! i)
                  @ replicate (length (extract_headers s3_table) - length (extract_rows s3_table ! i)) None)
          \<and> (length (extract_headers s3_table) \<le> length (extract_rows s3_table ! i) \<longrightarrow>
               cells df ! i = map Some (take (length (extract_headers s3_table)) (extract_rows s3_table ! i)))"
    by blast
  from fit have "cells df ! 0 = [Some ''1'', Some ''2'', None]"
    by (simp add: s3_headers s3_rows)
  moreover from fit have "cells df ! 1 = [Some ''3'', Some ''4'', Some ''5'']"
    by (simp add: s3_headers s3_rows)
  moreover from sh have "shape df = (2, 3)"
    by (simp add: s3_headers s3_rows)
  ultimately show ?thesis using frame s3_headers s3_rows by blast
qed

text \<open>
  Claim C10. With a non-empty header list and no extracted row (every row was dropped, or
  there was none), the frame is not the empty frame of shape (0, 0): it has no rows and the
  header names as its columns, so its shape is (0, C) with C the number of headers.
\<close>

theorem headers_without_rows:
  assumes "extract_headers tbl \<noteq> []" and "extract_rows tbl = []"
  shows "table_to_frame tbl = Inr \<lparr>columns = map Name (extract_headers tbl), cells = []\<rparr>
     \<and> shape \<lparr>columns = map Name (extract_headers tbl), cells = []\<rparr>
          = (0, length (extract_headers tbl))
     \<and> \<lparr>columns = map Name (extract_headers tbl), cells = []\<rparr> \<noteq> empty_frame"
  using assms table_to_frame_headers [OF assms(1)]
  by (simp add: shape_def empty_frame_def)

lemma headers_only_headers: "extract_headers headers_only_table = [''A'', ''B'']"
  by code_simp

lemma headers_only_rows: "extract_rows headers_only_table = []"
  by code_simp

theorem headers_without_rows_witness:
  "table_to_frame headers_only_table = Inr \<lparr>columns = [Name ''A'', Name ''B''], cells = []\<rparr>
   \<and> shape \<lparr>columns = [Name ''A'', Name ''B''], cells = []\<rparr> = (0, 2)
   \<and> \<lparr>columns = [Name ''A'', Name ''B''], cells = []\<rparr> \<noteq> empty_frame"
proof -
  have h: "extract_headers headers_only_table \<noteq> []" by (simp add: headers_only_headers)
  from headers_without_rows [OF h headers_only_rows] show ?thesis
    by (simp add: headers_only_headers)
qed

subsection \<open>Empty rows\<close>

lemma blank_cells_fail_test:
  assumes "\<forall>td\<in>set (find_all [''td'', ''th''] tr).
             \<forall>s\<in>set (all_strings False td). \<forall>c\<in>set s. isspace c"
  shows "\<not> list_ex (\<lambda>c. c \<noteq> []) (row_cells tr)"
  using assms by (simp add: row_cells_def list_ex_iff get_text_Nil_iff)

lemma extract_rows_nonblank:
  "r \<in> set (extract_rows tbl) \<Longrightarrow> \<exists>c\<in>set r. c \<noteq> []"
  by (auto simp: extract_rows_filter list_ex_iff)

text \<open>
  Claim C4, as amended. A row is kept exactly when one of its stripped cells is non-empty:
  a row whose cells hold nothing but whitespace (or that has no cell) is dropped before
  the rows are fitted to the headers. Every returned row comes from a kept row, and it
  still has a non-empty cell when it was not truncated, that is, when there are no headers
  or the row is no wider than the header list.
\<close>

theorem blank_rows_dropped:
  "extract_rows tbl =
     filter (\<lambda>r. \<exists>c\<in>set r. c \<noteq> []) (map row_cells (find_all [''tr''] (body_scope tbl)))
   \<and> (\<forall>tr\<in>set (find_all [''tr''] (body_scope tbl)).
        (\<forall>td\<in>set (find_all [''td'', ''th''] tr).
           \<forall>s\<in>set (all_strings False td). \<forall>c\<in>set s. isspace c)
        \<longrightarrow> \<not> (\<exists>c\<in>set (row_cells tr). c \<noteq> []))
   \<and> (\<exists>df. table_to_frame tbl = Inr df
        \<and> length (cells df) = length (extract_rows tbl)
        \<and> (\<forall>i<length (extract_rows tbl).
             (\<exists>c\<in>set (extract_rows tbl ! i). c \<noteq> [])
             \<and> (extract_headers tbl = []
                  \<or> length (extract_rows tbl ! i) \<le> length (extract_headers tbl)
                \<longrightarrow> (\<exists>c. c \<noteq> [] \<and> Some c \<in> set (cells df ! i)))))"
proof -
  have kept: "extract_rows tbl =
     filter (\<lambda>r. \<exists>c\<in>set r. c \<noteq> []) (map row_cells (find_all [''tr''] (body_scope tbl)))"
    by (simp add: extract_rows_filter list_ex_iff [abs_def])
  have dropped: "\<forall>tr\<in>set (find_all [''tr''] (body_scope tbl)).
        (\<forall>td\<in>set (find_all [''td'', ''th''] tr).
           \<forall>s\<in>set (all_strings False td). \<forall>c\<in>set s. isspace c)
        \<longrightarrow> \<not> (\<exists>c\<in>set (row_cells tr). c \<noteq> [])"
    using blank_cells_fail_test by (simp add: list_ex_iff)
  have nonblank: "\<exists>c\<in>set (extract_rows tbl ! i). c \<noteq> []" if "i < length (extract_rows tbl)" for i
    by (rule extract_rows_nonblank [of _ tbl]) (simp add: that)
  have frame: "\<exists>df. table_to_frame tbl = Inr df
        \<and> length (cells df) = length (extract_rows tbl)
        \<and> (\<forall>i<length (extract_rows tbl).
             (\<exists>c\<in>set (extract_rows tbl ! i). c \<noteq> [])
             \<and> (extract_headers tbl = []
                  \<or> length (extract_rows tbl ! i) \<le> length (extract_headers tbl)
                \<longrightarrow> (\<exists>c. c \<noteq> [] \<and> Some c \<in> set (cells df ! i))))"
  proof (cases "extract_headers tbl = []")
    case True
    let ?w = "width (extract_rows tbl)"
    let ?df = "\<lparr>columns = map Pos [0..<?w],
                cells = map (\<lambda>r. map Some r @ replicate (?w - length r) None) (extract_rows tbl)\<rparr>"
    from True have "table_to_frame tbl = Inr ?df"
      by (rule table_to_frame_headerless)
    moreover have "length (cells ?df) = length (extract_rows tbl)" by simp
    moreover have "\<forall>i<length (extract_rows tbl).
             (\<exists>c\<in>set (extract_rows tbl ! i). c \<noteq> [])
             \<and> (extract_headers tbl = []
                  \<or> length (extract_rows tbl ! i) \<le> length (extract_headers tbl)
                \<longrightarrow> (\<exists>c. c \<noteq> [] \<and> Some c \<in> set (cells ?df ! i)))"
    proof (intro allI impI conjI)
      fix i assume i: "i < length (extract_rows tbl)"
      then show "\<exists>c\<in>set (extract_rows tbl ! i). c \<noteq> []" by (rule nonblank)
      from nonblank [OF i] obtain c where c: "c \<in> set (extract_rows tbl ! i)" "c \<noteq> []"
        by blast
      from i c(1) have "Some c \<in> set (cells ?df ! i)" by simp
      with c(2) show "\<exists>c. c \<noteq> [] \<and> Some c \<in> set (cells ?df ! i)" by blast
    qed
    ultimately show ?thesis by blast
  next
    case False
    let ?C = "length (extract_headers tbl)"
    let ?df = "\<lparr>columns = map Name (extract_headers tbl),
                cells = map (normalize_row ?C) (extract_rows tbl)\<rparr>"
    from False have "table_to_frame tbl = Inr ?df"
      by (rule table_to_frame_headers)
    moreover have "length (cells ?df) = length (extract_rows tbl)" by simp
    moreover have "\<forall>i<length (extract_rows tbl).
             (\<exists>c\<in>set (extract_rows tbl ! i). c \<noteq> [])
             \<and> (extract_headers tbl = []
                  \<or> length (extract_rows tbl ! i) \<le> length (extract_headers tbl)
                \<longrightarrow> (\<exists>c. c \<noteq> [] \<and> Some c \<in> set (cells ?df ! i)))"
    proof (intro allI impI conjI)
      fix i assume i: "i < length (extract_rows tbl)"
      then show "\<exists>c\<in>set (extract_rows tbl ! i). c \<noteq> []" by (rule nonblank)
      assume "extract_headers tbl = [] \<or> length (extract_rows tbl ! i) \<le> ?C"
      with False have le: "length (extract_rows tbl ! i) \<le> ?C" by simp
      from nonblank [OF i] obtain c where c: "c \<in> set (extract_rows tbl ! i)" "c \<noteq> []"
        by blast
      from c(1) le have "Some c \<in> set (normalize_row ?C (extract_rows tbl ! i))"
        by (auto simp: normalize_row_def)
      with i c(2) show "\<exists>c. c \<noteq> [] \<and> Some c \<in> set (cells ?df ! i)" by auto
    qed
    ultimately show ?thesis by blast
  qed
  from kept dropped frame show ?thesis by blast
qed

lemma s4_rows: "extract_rows s4_table = [[''p'', ''q'', ''r'']]"
  by code_simp

lemma s4_body_rows:
  "find_all [''tr''] (body_scope s4_table) =
     [s4_blank_row,
      Tag ''tr'' [Tag ''td'' [Text ''p''], Tag ''td'' [Text ''q''], Tag ''td'' [Text ''r'']]]"
  by code_simp

lemma s4_blank_strings:
  "\<forall>td\<in>set (find_all [''td'', ''th''] s4_blank_row).
     \<forall>s\<in>set (all_strings False td). \<forall>c\<in>set s. isspace c"
  by (simp add: s4_blank_row_def find_all_def all_strings_def isspace_def)

theorem blank_rows_dropped_witness:
  "s4_blank_row \<in> set (find_all [''tr''] (body_scope s4_table))
   \<and> \<not> (\<exists>c\<in>set (row_cells s4_blank_row). c \<noteq> [])
   \<and> extract_rows s4_table = [[''p'', ''q'', ''r'']]
   \<and> (\<exists>df. table_to_frame s4_table = Inr df \<and> length (cells df) = 1
        \<and> (\<exists>c. c \<noteq> [] \<and> Some c \<in> set (cells df ! 0)))"
proof -
  note main = blank_rows_dropped [of s4_table]
  have mem: "s4_blank_row \<in> set (find_all [''tr''] (body_scope s4_table))"
    by (simp add: s4_body_rows)
  from main mem s4_blank_strings have blank: "\<not> (\<exists>c\<in>set (row_cells s4_blank_row). c \<noteq> [])"
    by blast
  from main obtain df where frame: "table_to_frame s4_table = Inr df"
    and len: "length (cells df) = length (extract_rows s4_table)"
    and rows: "\<forall>i<length (extract_rows s4_table).
             (\<exists>c\<in>set (extract_rows s4_table ! i). c \<noteq> [])
             \<and> (extract_headers s4_table = []
                  \<or> length (extract_rows s4_table ! i) \<le> length (extract_headers s4_table)
                \<longrightarrow> (\<exists>c. c \<noteq> [] \<and> Some c \<in> set (cells df ! i)))"
    by blast
  have hs: "extract_headers s4_table = [''A'', ''B'', ''C'']" by code_simp
  from rows have "\<exists>c. c \<noteq> [] \<and> Some c \<in> set (cells df ! 0)"
    by (simp add: s4_rows hs)
  with mem blank frame len s4_rows show ?thesis by auto
qed

text \<open>
  Claim C4 as stated (no returned row has only empty cells) fails where truncation cuts
  the filled cells off: with the single header A, the row with a blank first cell and the
  second cell x passes the filter and is returned as the one empty cell.
\<close>

theorem blank_row_counterexample:
  "extract_rows overlong_table = [['''', ''x'']]
   \<and> table_to_frame overlong_table = Inr \<lparr>columns = [Name ''A''], cells = [[Some '''']]\<rparr>
   \<and> list_ex blank_row (cells \<lparr>columns = [Name ''A''], cells = [[Some '''']]\<rparr>)"
  by code_simp

subsection \<open>Rows and cells\<close>

text \<open>
  Claim C5, as amended. The body rows are the rows kept from the \<^verbatim>\<open>tr\<close> elements found
  by \<^verbatim>\<open>find_all\<close> in the body scope, and these are all the \<^verbatim>\<open>tr\<close> elements below the
  scope at any depth, those of inner tables included. The scope is the first \<^verbatim>\<open>tbody\<close>
  below the table when there is one, and the table itself otherwise.
\<close>

theorem body_rows_all_depths:
  "extract_rows tbl =
     filter (list_ex (\<lambda>c. c \<noteq> [])) (map row_cells (find_all [''tr''] (body_scope tbl)))
   \<and> set (find_all [''tr''] (body_scope tbl)) =
       {d. below d (body_scope tbl) \<and> is_named [''tr''] d}
   \<and> (\<forall>tbody. find_tag ''tbody'' tbl = Some tbody \<longrightarrow> body_scope tbl = tbody)
   \<and> (find_tag ''tbody'' tbl = None \<longrightarrow> body_scope tbl = tbl)"
  by (simp add: extract_rows_filter set_find_all body_scope_def)

lemma nested_scope: "find_tag ''tbody'' nested_table = Some nested_tbody"
  by code_simp

lemma nested_inner_row:
  "below (Tag ''tr'' [Tag ''td'' [Text ''b'']]) nested_tbody"
proof -
  have "below (Tag ''tr'' [Tag ''td'' [Text ''b'']]) inner_table"
    unfolding inner_table_def by (rule below.child) simp
  then have "below (Tag ''tr'' [Tag ''td'' [Text ''b'']]) (Tag ''td'' [Text ''a'', inner_table])"
    by (rule below.deeper [rotated]) simp
  then have "below (Tag ''tr'' [Tag ''td'' [Text ''b'']])
               (Tag ''tr'' [Tag ''td'' [Text ''a'', inner_table]])"
    by (rule below.deeper [rotated]) simp
  then show ?thesis
    unfolding nested_tbody_def by (rule below.deeper [rotated]) simp
qed

theorem body_rows_all_depths_witness:
  "find_tag ''tbody'' nested_table = Some nested_tbody
   \<and> body_scope nested_table = nested_tbody
   \<and> Tag ''tr'' [Tag ''td'' [Text ''b'']] \<in> set (find_all [''tr''] (body_scope nested_table))
   \<and> Tag ''tr'' [Tag ''td'' [Text ''b'']] \<notin> set (children nested_tbody)"
proof -
  note main = body_rows_all_depths [of nested_table]
  from main nested_scope have scope: "body_scope nested_table = nested_tbody" by blast
  from main have "set (find_all [''tr''] (body_scope nested_table)) =
       {d. below d (body_scope nested_table) \<and> is_named [''tr''] d}" by blast
  with scope nested_inner_row
  have "Tag ''tr'' [Tag ''td'' [Text ''b'']] \<in> set (find_all [''tr''] (body_scope nested_table))"
    by simp
  moreover have "Tag ''tr'' [Tag ''td'' [Text ''b'']] \<notin> set (children nested_tbody)"
    by (simp add: nested_tbody_def)
  ultimately show ?thesis using nested_scope scope by blast
qed

text \<open>
  Claim C5 as stated (with a tbody, only its direct tr children are iterated) fails on a
  table whose body row has a cell holding an inner table: the specification's reading
  gives one row, the program two, the second being the row of the inner table.
\<close>

theorem direct_rows_counterexample:
  "find_tag ''tbody'' nested_table = Some nested_tbody
   \<and> spec_direct_children [''tr''] nested_tbody = [Tag ''tr'' [Tag ''td'' [Text ''a'', inner_table]]]
   \<and> spec_extract_rows nested_table = [[''ab'', ''b'']]
   \<and> extract_rows nested_table = [[''ab'', ''b''], [''b'']]"
  by code_simp





subsection \<open>First row as header\<close>

lemma find_all_th_td: "find_all [''th'', ''td''] nd = find_all [''td'', ''th''] nd"
proof -
  have "is_named [''th'', ''td''] d = is_named [''td'', ''th''] d" for d
    by (cases d) auto
  then have "is_named [''th'', ''td''] = is_named [''td'', ''th'']"
    by (rule ext)
  then show ?thesis by (simp add: find_all_def)
qed

lemma headers_first_row:
  assumes "find_tag ''thead'' tbl = None"
  shows "extract_headers tbl =
           (case find_tag ''tr'' tbl of None \<Rightarrow> [] | Some first_row \<Rightarrow> row_cells first_row)"
  using assms by (simp add: extract_headers_def row_cells_def find_all_th_td split: option.split)

lemma find_tag_first:
  "find_tag name nd = Some t \<Longrightarrow> \<exists>rest. find_all [name] nd = t # rest"
  by (simp add: find_tag_def split: list.splits)

lemma normalize_row_exact: "normalize_row (length r) r = map Some r"
  by (simp add: normalize_row_def)

text \<open>
  Claim C9, as amended. In a table without a \<^verbatim>\<open>thead\<close> the header list is the cell texts of
  the first \<^verbatim>\<open>tr\<close> (empty when there is none). That row is not taken out of the body pass:
  when it is among the rows iterated for the body and has a non-empty cell, it is one of
  the extracted rows and is returned, unchanged, under the columns it names; when the
  table has no \<^verbatim>\<open>tbody\<close> it is the first extracted row. Scenario S2 is the witness.
\<close>

theorem first_row_as_header:
  assumes "find_tag ''thead'' tbl = None"
  shows "extract_headers tbl =
           (case find_tag ''tr'' tbl of None \<Rightarrow> [] | Some first_row \<Rightarrow> row_cells first_row)
     \<and> (\<forall>first_row. find_tag ''tr'' tbl = Some first_row
            \<and> first_row \<in> set (find_all [''tr''] (body_scope tbl))
            \<and> (\<exists>c\<in>set (row_cells first_row). c \<noteq> [])
          \<longrightarrow> extract_headers tbl \<in> set (extract_rows tbl)
              \<and> (\<exists>df. table_to_frame tbl = Inr df
                    \<and> columns df = map Name (extract_headers tbl)
                    \<and> map Some (extract_headers tbl) \<in> set (cells df)))
     \<and> (\<forall>first_row. find_tag ''tr'' tbl = Some first_row
            \<and> find_tag ''tbody'' tbl = None
            \<and> (\<exists>c\<in>set (row_cells first_row). c \<noteq> [])
          \<longrightarrow> (\<exists>rest. extract_rows tbl = extract_headers tbl # rest))"
proof (intro conjI allI impI)
  show hs: "extract_headers tbl =
           (case find_tag ''tr'' tbl of None \<Rightarrow> [] | Some first_row \<Rightarrow> row_cells first_row)"
    using assms by (rule headers_first_row)
  {
    fix first_row
    assume a: "find_tag ''tr'' tbl = Some first_row
            \<and> first_row \<in> set (find_all [''tr''] (body_scope tbl))
            \<and> (\<exists>c\<in>set (row_cells first_row). c \<noteq> [])"
    with hs have h: "extract_headers tbl = row_cells first_row" by simp
    from a have "row_cells first_row \<in> set (extract_rows tbl)"
      by (auto simp: extract_rows_filter list_ex_iff)
    with h show inrows: "extract_headers tbl \<in> set (extract_rows tbl)" by simp
    from a h have ne: "extract_headers tbl \<noteq> []" by auto
    let ?df = "\<lparr>columns = map Name (extract_headers tbl),
                cells = map (normalize_row (length (extract_headers tbl))) (extract_rows tbl)\<rparr>"
    from ne have "table_to_frame tbl = Inr ?df" by (rule table_to_frame_headers)
    moreover have "columns ?df = map Name (extract_headers tbl)" by simp
    moreover from inrows
    have "normalize_row (length (extract_headers tbl)) (extract_headers tbl) \<in> set (cells ?df)"
      by simp
    then have "map Some (extract_headers tbl) \<in> set (cells ?df)"
      by (simp only: normalize_row_exact)
    ultimately show "\<exists>df. table_to_frame tbl = Inr df
                    \<and> columns df = map Name (extract_headers tbl)
                    \<and> map Some (extract_headers tbl) \<in> set (cells df)" by blast
  }
  {
    fix first_row
    assume a: "find_tag ''tr'' tbl = Some first_row
            \<and> find_tag ''tbody'' tbl = None
            \<and> (\<exists>c\<in>set (row_cells first_row). c \<noteq> [])"
    with hs have h: "extract_headers tbl = row_cells first_row" by simp
    from a obtain rest where "find_all [''tr''] tbl = first_row # rest"
      using find_tag_first by blast
    with a h show "\<exists>rest. extract_rows tbl = extract_headers tbl # rest"
      by (simp add: extract_rows_filter body_scope_def list_ex_iff)
  }
qed

lemma s2_no_thead: "find_tag ''thead'' s2_table = None"
  by code_simp

lemma s2_first_row:
  "find_tag ''tr'' s2_table = Some (Tag ''tr'' [Tag ''th'' [Text ''X''], Tag ''th'' [Text ''Y'']])"
  by code_simp

lemma s2_no_tbody: "find_tag ''tbody'' s2_table = None"
  by code_simp

lemma s2_first_cells:
  "row_cells (Tag ''tr'' [Tag ''th'' [Text ''X''], Tag ''th'' [Text ''Y'']]) = [''X'', ''Y'']"
  by code_simp

lemma s2_rows: "extract_rows s2_table = [[''X'', ''Y''], [''a'', ''b'']]"
  by code_simp

theorem first_row_as_header_witness:
  "find_tag ''thead'' s2_table = None
   \<and> extract_headers s2_table = [''X'', ''Y'']
   \<and> extract_rows s2_table = [[''X'', ''Y''], [''a'', ''b'']]
   \<and> (\<exists>rest. extract_rows s2_table = extract_headers s2_table # rest)
   \<and> (\<exists>df. table_to_frame s2_table = Inr df
        \<and> columns df = [Name ''X'', Name ''Y'']
        \<and> [Some ''X'', Some ''Y''] \<in> set (cells df))"
proof -
  note main = first_row_as_header [OF s2_no_thead]
  from main have hs: "extract_headers s2_table = [''X'', ''Y'']"
    by (simp add: s2_first_row s2_first_cells)
  have filled: "\<exists>c\<in>set (row_cells (Tag ''tr'' [Tag ''th'' [Text ''X''], Tag ''th'' [Text ''Y'']])). c \<noteq> []"
    by (simp add: s2_first_cells)
  with main s2_first_row s2_no_tbody
  have "\<exists>rest. extract_rows s2_table = extract_headers s2_table # rest"
    by blast
  moreover have "Tag ''tr'' [Tag ''th'' [Text ''X''], Tag ''th'' [Text ''Y'']]
                   \<in> set (find_all [''tr''] (body_scope s2_table))"
    by code_simp
  with main s2_first_row filled
  have "\<exists>df. table_to_frame s2_table = Inr df
        \<and> columns df = map Name (extract_headers s2_table)
        \<and> map Some (extract_headers s2_table) \<in> set (cells df)"
    by blast
  then have "\<exists>df. table_to_frame s2_table = Inr df
        \<and> columns df = [Name ''X'', Name ''Y'']
        \<and> [Some ''X'', Some ''Y''] \<in> set (cells df)"
    by (simp add: hs)
  ultimately show ?thesis using hs s2_no_thead s2_rows by blast
qed

text \<open>
  Claim C9 as stated (the first row is always among the body rows) fails when the first
  row is blank: its single blank cell becomes the header name, and the empty-row filter
  drops the row from the body.
\<close>

theorem first_row_counterexample:
  "find_tag ''thead'' blank_first_table = None
   \<and> find_tag ''tr'' blank_first_table = Some (Tag ''tr'' [Tag ''td'' [Text '' '']])
   \<and> extract_headers blank_first_table = ['''']
   \<and> extract_rows blank_first_table = [[''a'']]
   \<and> table_to_frame blank_first_table = Inr \<lparr>columns = [Name ''''], cells = [[Some ''a'']]\<rparr>"
  by code_simp

end
